theory Spec2Isabelle
  imports Complex_Main
begin

section \<open>Python values, errors and sequence operations\<close>

text \<open>
  Exceptions of the Python sources become values of \<open>error\<close>; a function that may raise
  returns \<open>error + 'a\<close> with \<open>Inl\<close> for the raised exception.
\<close>

datatype error =
    TypeError
  | ValueError
  | IndexError
  | NameError
  | SyntaxError
  | AssertionError
  | AttributeError
  | ZeroDivisionError
  | NotImplementedError
  | DataInvalidError string

text \<open>
  A Python or numpy float is a real number or NaN. Infinities and rounding are outside
  this model: arithmetic on \<open>Fin\<close> values is exact real arithmetic.
\<close>

datatype pyfloat = NaN | Fin real

fun isnan :: "pyfloat \<Rightarrow> bool" where
  "isnan NaN = True"
| "isnan (Fin r) = False"

text \<open>\<open>value > 0.0\<close> and \<open>value == 0.0\<close>: every comparison with NaN is false.\<close>

fun py_gt0 :: "pyfloat \<Rightarrow> bool" where
  "py_gt0 NaN = False"
| "py_gt0 (Fin r) = (0 < r)"

fun py_eq0 :: "pyfloat \<Rightarrow> bool" where
  "py_eq0 NaN = False"
| "py_eq0 (Fin r) = (r = 0)"

text \<open>
  Slice bounds: a negative bound counts from the end, and every bound is clipped to the
  sequence. \<open>py_slice xs i j\<close> is \<open>xs[i:j]\<close>, \<open>py_slice_from xs i\<close> is \<open>xs[i:]\<close>.
\<close>

definition py_norm :: "nat \<Rightarrow> int \<Rightarrow> nat" where
  "py_norm n i = (if i < 0 then nat (max 0 (int n + i)) else min n (nat i))"

definition py_slice :: "'a list \<Rightarrow> int \<Rightarrow> int \<Rightarrow> 'a list" where
  "py_slice xs i j =
     (let a = py_norm (length xs) i; b = py_norm (length xs) j
      in take (b - a) (drop a xs))"

definition py_slice_from :: "'a list \<Rightarrow> int \<Rightarrow> 'a list" where
  "py_slice_from xs i = drop (py_norm (length xs) i) xs"

text \<open>
  Indexing \<open>xs[i]\<close>: a negative index counts from the end, an index outside the sequence
  raises IndexError. \<open>py_index n i\<close> is the position read in a sequence of length \<open>n\<close>.
\<close>

definition py_index :: "nat \<Rightarrow> int \<Rightarrow> error + nat" where
  "py_index n i =
     (let j = (if i < 0 then int n + i else i)
      in if 0 \<le> j \<and> j < int n then Inr (nat j) else Inl IndexError)"

definition py_get :: "'a list \<Rightarrow> int \<Rightarrow> error + 'a" where
  "py_get xs i = (case py_index (length xs) i of Inl e \<Rightarrow> Inl e | Inr j \<Rightarrow> Inr (xs ! j))"

section \<open>resolvers/resolver.py: the valid data range\<close>

text \<open>
  \<open>first_index_from P i vs\<close> is the loop
  \<^verbatim>\<open>for i, value in enumerate(vs, i): if P(value): return i\<close>,
  with \<open>None\<close> when the loop ends without a break.
\<close>

fun first_index_from :: "(pyfloat \<Rightarrow> bool) \<Rightarrow> int \<Rightarrow> pyfloat list \<Rightarrow> int option" where
  "first_index_from P i [] = None"
| "first_index_from P i (v # vs) = (if P v then Some i else first_index_from P (i + 1) vs)"

definition get_valid_data_range :: "pyfloat list \<Rightarrow> int \<times> int" where
  "get_valid_data_range y_data =
     (let start_index = (case first_index_from py_gt0 0 y_data of
                            None \<Rightarrow> 0 | Some i \<Rightarrow> i);
          end_index = (case first_index_from py_eq0 (start_index + 1)
                              (py_slice_from y_data (start_index + 1)) of
                          None \<Rightarrow> - 1 | Some i \<Rightarrow> i)
      in (start_index, end_index))"

section \<open>algorithms.py: the Weibull kernel and the parameter layout\<close>

definition INFINITESIMAL :: real where
  "INFINITESIMAL = 1 / 10 ^ 100"

text \<open>
  \<open>x ** a\<close> on floats is modelled by \<open>powr\<close>, which agrees with it for a positive base;
  division is the division of the reals.
\<close>

definition weibull :: "real \<Rightarrow> real \<Rightarrow> real \<Rightarrow> real" where
  "weibull x beta eta = beta / eta * (x / eta) powr (beta - 1) * exp (- ((x / eta) powr beta))"

text \<open>
  The values a caller may pass where the source expects an int, an array or an enum
  member. \<open>PyObject\<close> stands for a value of any other type.
\<close>

datatype DistributionType = Normal | SkewNormal | Weibull | GeneralWeibull

datatype pyvalue =
    PyNone
  | PyBool bool
  | PyInt int
  | PyFloat pyfloat
  | PyStr string
  | PyArray "pyfloat list"
  | PyDistributionType DistributionType
  | PyObject

definition check_ncomp :: "pyvalue \<Rightarrow> error + int" where
  "check_ncomp ncomp =
     (case ncomp of
        PyInt n \<Rightarrow> (if n \<le> 0 then Inl ValueError else Inr n)
      | _ \<Rightarrow> Inl TypeError)"

subsection \<open>Names: formatting and parsing of component numbers\<close>

definition digit_char :: "nat \<Rightarrow> char" where
  "digit_char d = ''0123456789'' ! d"

text \<open>\<open>str_of_nat n\<close> is \<open>"{0}".format(n)\<close> for a non-negative int.\<close>

function str_of_nat :: "nat \<Rightarrow> string" where
  "str_of_nat n =
     (if n < 10 then [digit_char n] else str_of_nat (n div 10) @ [digit_char (n mod 10)])"
  by pat_completeness auto
termination
  by (relation "measure (\<lambda>n. n)") auto

declare str_of_nat.simps [simp del]

definition digit_val :: "char \<Rightarrow> nat option" where
  "digit_val = map_of (zip ''0123456789'' [0, 1, 2, 3, 4, 5, 6, 7, 8, 9])"

fun digits_value :: "nat \<Rightarrow> string \<Rightarrow> nat option" where
  "digits_value acc [] = Some acc"
| "digits_value acc (c # cs) =
     (case digit_val c of None \<Rightarrow> None | Some d \<Rightarrow> digits_value (10 * acc + d) cs)"


definition startswith :: "string \<Rightarrow> string \<Rightarrow> bool" where
  "startswith s p = (take (length p) s = p)"

subsection \<open>The parameter layout\<close>

record param =
  p_name :: string
  p_default :: real
  p_location :: nat
  p_bounds :: "real \<times> real option"

definition beta_param :: "nat \<Rightarrow> param" where
  "beta_param i = \<lparr>p_name = ''beta'' @ str_of_nat (i + 1), p_default = 1,
                   p_location = i * 2, p_bounds = (INFINITESIMAL, None)\<rparr>"

definition eta_param :: "nat \<Rightarrow> param" where
  "eta_param i = \<lparr>p_name = ''eta'' @ str_of_nat (i + 1), p_default = 1,
                  p_location = i * 2 + 1, p_bounds = (INFINITESIMAL, None)\<rparr>"

definition f_param :: "int \<Rightarrow> nat \<Rightarrow> param" where
  "f_param ncomp i = \<lparr>p_name = ''f'' @ str_of_nat (i + 1), p_default = 1 / real_of_int ncomp,
                      p_location = nat ncomp * 2 + i, p_bounds = (0, Some 1)\<rparr>"

definition get_params :: "int \<Rightarrow> error + param list" where
  "get_params ncomp =
     (if ncomp = 1 then
        Inr [\<lparr>p_name = ''beta'', p_default = 1, p_location = 0,
               p_bounds = (INFINITESIMAL, None)\<rparr>,
             \<lparr>p_name = ''eta'', p_default = 1, p_location = 1,
               p_bounds = (INFINITESIMAL, None)\<rparr>]
      else if ncomp > 1 then
        Inr (concat (map (\<lambda>i. [beta_param i, eta_param i]) [0..<nat ncomp])
             @ map (f_param ncomp) [0..<nat (ncomp - 1)])
      else Inl ValueError)"

text \<open>\<open>list.sort(key=...)\<close> is a stable sort, as \<open>sort_key\<close> is.\<close>

definition sort_params_by_location_in_place :: "param list \<Rightarrow> param list" where
  "sort_params_by_location_in_place params = sort_key p_location params"

definition get_bounds :: "param list \<Rightarrow> (real \<times> real option) list" where
  "get_bounds params = map p_bounds params"

definition get_defaults :: "param list \<Rightarrow> real list" where
  "get_defaults params = map p_default params"

record constrain =
  c_type :: string
  c_fun :: "real list \<Rightarrow> real"

definition get_constrains :: "int \<Rightarrow> constrain list" where
  "get_constrains ncomp =
     [\<lparr>c_type = ''ineq'',
       c_fun = (\<lambda>args. 1 - sum_list (py_slice_from args (1 - ncomp)) + INFINITESIMAL)\<rparr>]"

subsection \<open>The generated mixture function\<close>

text \<open>
  \<open>_get_lambda_string\<close> writes the source text of a lambda and \<open>get_mixed_weibull\<close> runs
  it through \<open>exec\<close>. The text is kept here in structured form: the list of parameter
  names after \<open>lambda\<close>, and the body. For one component the body is the Weibull density
  written out over the names \<open>x\<close>, \<open>beta\<close>, \<open>eta\<close>. For more components it is a sum of
  terms \<open>w*weibull(x, b, e)\<close> where \<open>b\<close> and \<open>e\<close> are names and the weight \<open>w\<close> is either
  a name \<open>f\<close> or the parenthesised difference \<open>(1-f1-...-fn)\<close>.
\<close>

datatype weight_expr = WName string | WOneMinus "string list"

datatype lambda_body =
    SingleWeibull
  | WeibullSum "(weight_expr \<times> string \<times> string) list"

record pylambda =
  lam_params :: "string list"
  lam_body :: lambda_body

definition frac_term :: "nat \<Rightarrow> weight_expr \<times> string \<times> string" where
  "frac_term i = (WName (''f'' @ str_of_nat (i + 1)),
                  ''beta'' @ str_of_nat (i + 1), ''eta'' @ str_of_nat (i + 1))"

definition last_term :: "int \<Rightarrow> weight_expr \<times> string \<times> string" where
  "last_term ncomp =
     (WOneMinus (map (\<lambda>i. ''f'' @ str_of_nat (i + 1)) [0..<nat (ncomp - 1)]),
      ''beta'' @ str_of_nat (nat ncomp), ''eta'' @ str_of_nat (nat ncomp))"

definition get_lambda_string :: "int \<Rightarrow> param list \<Rightarrow> error + pylambda" where
  "get_lambda_string ncomp params =
     (if ncomp = 1 then
        Inr \<lparr>lam_params = [''x'', ''beta'', ''eta''], lam_body = SingleWeibull\<rparr>
      else if ncomp > 1 then
        Inr \<lparr>lam_params = ''x'' # map p_name params,
             lam_body = WeibullSum (map frac_term [0..<nat (ncomp - 1)] @ [last_term ncomp])\<rparr>
      else Inl ValueError)"

text \<open>
  \<open>exec\<close> compiles the lambda; Python rejects a parameter list that names one parameter
  twice.
\<close>

definition exec_lambda :: "pylambda \<Rightarrow> error + pylambda" where
  "exec_lambda lam = (if distinct (lam_params lam) then Inr lam else Inl SyntaxError)"

text \<open>
  Evaluation of the body in an environment that binds the parameter names. A name that
  is not bound raises NameError (\<open>weibull\<close> itself is found in the module's globals).
\<close>

definition lookup :: "(string \<times> real) list \<Rightarrow> string \<Rightarrow> error + real" where
  "lookup env n = (case map_of env n of None \<Rightarrow> Inl NameError | Some v \<Rightarrow> Inr v)"

fun eval_minus :: "(string \<times> real) list \<Rightarrow> real \<Rightarrow> string list \<Rightarrow> error + real" where
  "eval_minus env acc [] = Inr acc"
| "eval_minus env acc (n # ns) =
     (case lookup env n of Inl e \<Rightarrow> Inl e | Inr v \<Rightarrow> eval_minus env (acc - v) ns)"

fun eval_weight :: "(string \<times> real) list \<Rightarrow> weight_expr \<Rightarrow> error + real" where
  "eval_weight env (WName n) = lookup env n"
| "eval_weight env (WOneMinus ns) = eval_minus env 1 ns"

definition eval_term :: "(string \<times> real) list \<Rightarrow> weight_expr \<times> string \<times> string \<Rightarrow> error + real" where
  "eval_term env t =
     (case t of (w, b, e) \<Rightarrow>
        (case eval_weight env w of Inl err \<Rightarrow> Inl err | Inr wv \<Rightarrow>
        (case lookup env ''x'' of Inl err \<Rightarrow> Inl err | Inr xv \<Rightarrow>
        (case lookup env b of Inl err \<Rightarrow> Inl err | Inr bv \<Rightarrow>
        (case lookup env e of Inl err \<Rightarrow> Inl err | Inr ev \<Rightarrow>
           Inr (wv * weibull xv bv ev))))))"




definition get_mixed_weibull ::
  "pyvalue \<Rightarrow> error + (pylambda \<times> (real \<times> real option) list \<times> constrain list \<times> real list \<times> param list)" where
  "get_mixed_weibull ncomp =
     (case check_ncomp ncomp of Inl e \<Rightarrow> Inl e | Inr n \<Rightarrow>
     (case get_params n of Inl e \<Rightarrow> Inl e | Inr ps \<Rightarrow>
       (let func_params = sort_params_by_location_in_place ps in
        (case get_lambda_string n func_params of Inl e \<Rightarrow> Inl e | Inr lambda_string \<Rightarrow>
          (let bounds = get_bounds func_params;
               constrains = get_constrains n;
               defaults = get_defaults func_params
           in (case exec_lambda lambda_string of Inl e \<Rightarrow> Inl e | Inr f \<Rightarrow>
                 Inr (f, bounds, constrains, defaults, func_params)))))))"

subsection \<open>Decoding a fitted vector\<close>














subsection \<open>The layout in closed form\<close>

text \<open>
  The list that \<open>get_params\<close> builds for more than one component, and the position that a
  name of the layout stands for; both are used to state and prove properties only.
\<close>

definition comp_params :: "nat \<Rightarrow> param list" where
  "comp_params n = concat (map (\<lambda>i. [beta_param i, eta_param i]) [0..<n])"

definition layout :: "nat \<Rightarrow> param list" where
  "layout n = comp_params n @ map (f_param (int n)) [0..<n - 1]"

definition name_slot :: "nat \<Rightarrow> string \<Rightarrow> nat" where
  "name_slot n s =
     (if startswith s ''beta'' then 2 * (the (digits_value 0 (drop 4 s)) - 1)
      else if startswith s ''eta'' then 2 * (the (digits_value 0 (drop 3 s)) - 1) + 1
      else 2 * n + (the (digits_value 0 (drop 1 s)) - 1))"

section \<open>resolvers/resolver.py: the single-sample resolver\<close>

text \<open>
  The attributes of a \<open>Resolver\<close>. \<open>refresh_by_distribution_type\<close> binds nine functions
  of one family at once (\<open>get_mixed_func\<close>, \<open>single_func\<close>, \<open>mean_func\<close>, \<open>median_func\<close>,
  \<open>mode_func\<close>, \<open>variance_func\<close>, \<open>std_deviation_func\<close>, \<open>skewness_func\<close>,
  \<open>kurtosis_func\<close>); the field \<open>funcs_family\<close> records the family they belong to.
  An attribute that holds \<open>None\<close> until data is fed is an option or a \<open>pyvalue\<close>;
  the attribute \<open>constrains\<close> is the field \<open>the_constrains\<close>.
\<close>

record resolver =
  distribution_type :: DistributionType
  ncomp :: int
  funcs_family :: DistributionType
  mixed_func :: pylambda
  bounds :: "(real \<times> real option) list"
  the_constrains :: "constrain list"
  defaults :: "real list"
  params :: "param list"
  initial_guess :: "real list"
  global_optimization_maxiter :: int
  global_optimization_success_iter :: int
  final_tolerance :: real
  final_maxiter :: int
  minimizer_tolerance :: real
  minimizer_maxiter :: int
  real_x :: pyvalue
  y_data :: pyvalue
  start_index :: "int option"
  end_index :: "int option"
  x_to_fit :: "int list option"
  y_to_fit :: "pyfloat list option"

text \<open>
  \<open>self.get_mixed_func\<close>: only the Weibull functions exist, and
  \<open>refresh_by_distribution_type\<close> binds no function of another family.
\<close>

definition get_mixed_func ::
  "DistributionType \<Rightarrow> pyvalue \<Rightarrow>
     error + (pylambda \<times> (real \<times> real option) list \<times> constrain list \<times> real list \<times> param list)" where
  "get_mixed_func family = (case family of
       Weibull \<Rightarrow> get_mixed_weibull
     | _ \<Rightarrow> (\<lambda>_. Inl NotImplementedError))"

definition refresh_by_ncomp :: "resolver \<Rightarrow> error + resolver" where
  "refresh_by_ncomp self =
     (case get_mixed_func (funcs_family self) (PyInt (ncomp self)) of
        Inl e \<Rightarrow> Inl e
      | Inr (f, b, c, d, p) \<Rightarrow>
          Inr (self\<lparr>mixed_func := f, bounds := b, the_constrains := c, defaults := d,
                    params := p, initial_guess := d\<rparr>))"

definition refresh_by_distribution_type :: "resolver \<Rightarrow> error + resolver" where
  "refresh_by_distribution_type self =
     (if distribution_type self = Weibull then Inr (self\<lparr>funcs_family := Weibull\<rparr>)
      else Inl NotImplementedError)"

text \<open>
  The two property setters. \<open>type(value) != int\<close> is true for every value that is not an
  int, a bool included.
\<close>

definition set_distribution_type :: "resolver \<Rightarrow> pyvalue \<Rightarrow> error + resolver" where
  "set_distribution_type self v =
     (case v of
        PyDistributionType d \<Rightarrow> refresh_by_distribution_type (self\<lparr>distribution_type := d\<rparr>)
      | _ \<Rightarrow> Inr self)"

definition set_ncomp :: "resolver \<Rightarrow> pyvalue \<Rightarrow> error + resolver" where
  "set_ncomp self v =
     (case v of
        PyInt n \<Rightarrow> (if n \<le> 1 then Inr self else refresh_by_ncomp (self\<lparr>ncomp := n\<rparr>))
      | _ \<Rightarrow> Inr self)"

text \<open>The constructor, with its six keyword arguments.\<close>

definition init_resolver :: "int \<Rightarrow> int \<Rightarrow> real \<Rightarrow> int \<Rightarrow> real \<Rightarrow> int \<Rightarrow> error + resolver" where
  "init_resolver g_maxiter g_success_iter f_tolerance f_maxiter m_tolerance m_maxiter =
     (case get_mixed_func Weibull (PyInt 2) of
        Inl e \<Rightarrow> Inl e
      | Inr (f, b, c, d, p) \<Rightarrow>
          Inr \<lparr>distribution_type = Weibull, ncomp = 2, funcs_family = Weibull,
               mixed_func = f, bounds = b, the_constrains = c, defaults = d, params = p,
               initial_guess = d,
               global_optimization_maxiter = g_maxiter,
               global_optimization_success_iter = g_success_iter,
               final_tolerance = f_tolerance, final_maxiter = f_maxiter,
               minimizer_tolerance = m_tolerance, minimizer_maxiter = m_maxiter,
               real_x = PyNone, y_data = PyNone, start_index = None, end_index = None,
               x_to_fit = None, y_to_fit = None\<rparr>)"

definition validate_data :: "pyvalue \<Rightarrow> pyvalue \<Rightarrow> error + unit" where
  "validate_data x y =
     (if x = PyNone then Inl (DataInvalidError ''`x` is `None`.'')
      else if y = PyNone then Inl (DataInvalidError ''`y` is `None`.'')
      else case x of
        PyArray xs \<Rightarrow>
          (case y of
             PyArray ys \<Rightarrow>
               if length xs \<noteq> length ys
               then Inl (DataInvalidError ''The lengths of `x` and `y` are not equal.'')
               else if list_ex isnan xs then Inl (DataInvalidError ''There is `nan` in `x`.'')
               else if list_ex isnan ys then Inl (DataInvalidError ''There is `nan` in `y`.'')
               else Inr ()
           | _ \<Rightarrow> Inl (DataInvalidError ''Type of `y` is not `numpy.ndarray`.''))
      | _ \<Rightarrow> Inl (DataInvalidError ''Type of `x` is not `numpy.ndarray`.''))"

text \<open>
  The hooks are empty methods of \<open>Resolver\<close> that a subclass overrides; they are
  parameters of \<open>feed_data\<close>, and \<open>base_hooks\<close> are the ones of the class itself.
\<close>

record hooks =
  on_data_invalid :: "resolver \<Rightarrow> pyvalue \<Rightarrow> pyvalue \<Rightarrow> string \<Rightarrow> error + resolver"
  on_data_fed :: "resolver \<Rightarrow> error + resolver"

definition base_hooks :: hooks where
  "base_hooks = \<lparr>on_data_invalid = (\<lambda>self x y message. Inr self),
                  on_data_fed = (\<lambda>self. Inr self)\<rparr>"

definition preprocess_data :: "resolver \<Rightarrow> error + resolver" where
  "preprocess_data self =
     (case y_data self of
        PyArray ys \<Rightarrow>
          (case get_valid_data_range ys of (s, e) \<Rightarrow>
             if distribution_type self = Weibull then
               Inr (self\<lparr>start_index := Some s, end_index := Some e,
                         x_to_fit := Some (map (\<lambda>i. int i + 1) [0..<nat (e - s)]),
                         y_to_fit := Some (py_slice ys s e)\<rparr>)
             else Inl NotImplementedError)
      | _ \<Rightarrow> Inl TypeError)"

text \<open>
  The attribute read \<open>e.message\<close> in the handler of \<open>feed_data\<close>. An exception object of
  Python 3 keeps its arguments in \<open>args\<close>; it has no attribute \<open>message\<close>, and
  \<open>DataInvalidError.__init__\<close> sets none, so the read raises AttributeError.
\<close>

definition exception_message :: "error \<Rightarrow> error + string" where
  "exception_message e = Inl AttributeError"

definition feed_data :: "hooks \<Rightarrow> resolver \<Rightarrow> pyvalue \<Rightarrow> pyvalue \<Rightarrow> error + resolver" where
  "feed_data h self x y =
     (case validate_data x y of
        Inl (DataInvalidError m) \<Rightarrow>
          (case exception_message (DataInvalidError m) of
             Inl err \<Rightarrow> Inl err
           | Inr message \<Rightarrow> on_data_invalid h self x y message)
      | Inl other \<Rightarrow> Inl other
      | Inr _ \<Rightarrow>
          (case preprocess_data (self\<lparr>real_x := x, y_data := y\<rparr>) of
             Inl e \<Rightarrow> Inl e
           | Inr self' \<Rightarrow> on_data_fed h self'))"

subsection \<open>Decoded components in closed form\<close>






definition layout_env :: "nat \<Rightarrow> real \<Rightarrow> real list \<Rightarrow> (string \<times> real) list" where
  "layout_env n x v = zip (''x'' # map p_name (layout n)) (x # v)"

section \<open>QGrain/udm/_resolver.py: the joint resolver\<close>

subsection \<open>Float arithmetic with NaN\<close>

fun py_add :: "pyfloat \<Rightarrow> pyfloat \<Rightarrow> pyfloat" where
  "py_add (Fin a) (Fin b) = Fin (a + b)"
| "py_add _ _ = NaN"

fun py_sub :: "pyfloat \<Rightarrow> pyfloat \<Rightarrow> pyfloat" where
  "py_sub (Fin a) (Fin b) = Fin (a - b)"
| "py_sub _ _ = NaN"

fun py_scale :: "real \<Rightarrow> pyfloat \<Rightarrow> pyfloat" where
  "py_scale a (Fin b) = Fin (a * b)"
| "py_scale a NaN = NaN"

fun py_less :: "pyfloat \<Rightarrow> pyfloat \<Rightarrow> bool" where
  "py_less (Fin a) (Fin b) = (a < b)"
| "py_less _ _ = False"

fun fin_value :: "pyfloat \<Rightarrow> real" where
  "fin_value (Fin r) = r"
| "fin_value NaN = 0"

text \<open>\<open>np.mean\<close>: NaN on an empty sequence and on a sequence that holds a NaN.\<close>

definition np_mean :: "pyfloat list \<Rightarrow> pyfloat" where
  "np_mean xs =
     (if xs = [] \<or> list_ex isnan xs then NaN
      else Fin (sum_list (map fin_value xs) / real (length xs)))"

subsection \<open>The model and its training loop\<close>

text \<open>
  The torch module together with its Adam optimizer is a state of type \<open>'m\<close>; what torch
  computes on it is given by five functions: the two losses of a forward pass
  (\<open>distribution_loss.item()\<close> and \<open>component_loss.item()\<close>), the optimizer step of the
  pretrain phase (backward of the distribution loss, components frozen), the optimizer
  step of the main phase (backward of the total loss), and the parameter snapshot
  \<open>torch.cat([components.params, proportions.params], dim=1)\<close>.
\<close>

record ('m, 'p) udm =
  dist_loss :: "'m \<Rightarrow> pyfloat"
  comp_loss :: "'m \<Rightarrow> pyfloat"
  pre_step :: "'m \<Rightarrow> 'm"
  main_step :: "'m \<Rightarrow> 'm"
  snapshot :: "'m \<Rightarrow> 'p"

text \<open>
  Modelled from the spec: the fields of \<open>UDMAlgorithmSetting\<close> that \<open>try_fit\<close> reads
  (the class itself is in \<open>_setting.py\<close>): the pretrain epoch count, the minimum-iteration
  floor and the maximum iteration cap are iteration counts, \<open>precision\<close> and
  \<open>constraint_level\<close> are exponents of 10.
\<close>

record setting =
  pretrain_epochs :: nat
  min_epochs :: nat
  max_epochs :: nat
  precision :: real
  constraint_level :: real

text \<open>The state of the loops: the model and the three lists that grow.\<close>

type_synonym ('m, 'p) loop_state = "'m \<times> pyfloat list \<times> pyfloat list \<times> 'p list"

fun pretrain_loop :: "('m, 'p) udm \<Rightarrow> nat \<Rightarrow> ('m, 'p) loop_state \<Rightarrow> ('m, 'p) loop_state" where
  "pretrain_loop M 0 st = st"
| "pretrain_loop M (Suc n) (m, dls, cls, hist) =
     (let m' = pre_step M m
      in pretrain_loop M n (m', dls @ [dist_loss M m], cls @ [Fin 0], hist @ [snapshot M m']))"

text \<open>
  The early-stopping test at the end of a main-phase iteration, on the distribution-loss
  series that already holds the entry of this iteration.
\<close>

definition early_stop :: "setting \<Rightarrow> nat \<Rightarrow> pyfloat list \<Rightarrow> bool" where
  "early_stop s epoch dls =
     (epoch > min_epochs s \<and>
      py_less (py_sub (np_mean (py_slice dls (- 100) (- 80))) (np_mean (py_slice_from dls (- 20))))
              (Fin (10 powr (- precision s))))"

definition total_loss :: "('m, 'p) udm \<Rightarrow> setting \<Rightarrow> 'm \<Rightarrow> pyfloat" where
  "total_loss M s m = py_add (dist_loss M m) (py_scale (10 powr constraint_level s) (comp_loss M m))"

function main_loop ::
  "('m, 'p) udm \<Rightarrow> setting \<Rightarrow> nat \<Rightarrow> ('m, 'p) loop_state \<Rightarrow> ('m, 'p) loop_state" where
  "main_loop M s epoch (m, dls, cls, hist) =
     (if epoch < max_epochs s then
        if isnan (total_loss M s m) then (m, dls, cls, hist)
        else
          let dls' = dls @ [dist_loss M m];
              cls' = cls @ [py_scale (10 powr constraint_level s) (comp_loss M m)];
              m' = main_step M m;
              hist' = hist @ [snapshot M m']
          in if early_stop s epoch dls' then (m', dls', cls', hist')
             else main_loop M s (Suc epoch) (m', dls', cls', hist')
      else (m, dls, cls, hist))"
  by pat_completeness auto
termination
  by (relation "measure (\<lambda>(M, s, epoch, st). max_epochs s - epoch)") auto

declare main_loop.simps [simp del]

text \<open>
  The result of \<open>try_fit\<close>: the two loss series, the final parameters and the history
  (the dataset, the kernel type, the component count, the initial parameters and the
  setting are passed through unchanged, and the time spent is a clock reading).
\<close>

record 'p udm_result =
  distribution_loss_series :: "pyfloat list"
  component_loss_series :: "pyfloat list"
  final_params :: 'p
  history :: "'p list"

definition try_fit :: "('m, 'p) udm \<Rightarrow> setting \<Rightarrow> 'm \<Rightarrow> 'p udm_result" where
  "try_fit M s m0 =
     (case main_loop M s 0 (pretrain_loop M (pretrain_epochs s) (m0, [], [], [])) of
        (m, dls, cls, hist) \<Rightarrow>
          \<lparr>distribution_loss_series = dls, component_loss_series = cls,
           final_params = snapshot M m, history = hist\<rparr>)"

text \<open>
  Modelled from the spec: the iteration count \<open>n_iterations\<close> of a \<open>UDMResult\<close> (the class is
  in \<open>_result.py\<close>), the number of recorded iterations; the chart code takes one
  animation frame per history entry and \<open>n_iterations\<close> frames.
\<close>

definition n_iterations :: "'p udm_result \<Rightarrow> nat" where
  "n_iterations r = length (history r)"

subsection \<open>The run of the two loops in closed form\<close>

text \<open>
  \<open>state_at M s m0 t\<close> is the model after \<open>t\<close> optimizer steps, the first
  \<open>pretrain_epochs\<close> of them pretrain steps; \<open>run_upto M s m0 t\<close> is the loop state in
  which exactly the iterations \<open>0, ..., t-1\<close> have been recorded.
\<close>

definition state_at :: "('m, 'p) udm \<Rightarrow> setting \<Rightarrow> 'm \<Rightarrow> nat \<Rightarrow> 'm" where
  "state_at M s m0 t =
     (if t \<le> pretrain_epochs s then (pre_step M ^^ t) m0
      else (main_step M ^^ (t - pretrain_epochs s)) ((pre_step M ^^ pretrain_epochs s) m0))"

definition cl_at :: "('m, 'p) udm \<Rightarrow> setting \<Rightarrow> 'm \<Rightarrow> nat \<Rightarrow> pyfloat" where
  "cl_at M s m0 t =
     (if t < pretrain_epochs s then Fin 0
      else py_scale (10 powr constraint_level s) (comp_loss M (state_at M s m0 t)))"

definition run_upto :: "('m, 'p) udm \<Rightarrow> setting \<Rightarrow> 'm \<Rightarrow> nat \<Rightarrow> ('m, 'p) loop_state" where
  "run_upto M s m0 t =
     (state_at M s m0 t,
      map (\<lambda>j. dist_loss M (state_at M s m0 j)) [0..<t],
      map (cl_at M s m0) [0..<t],
      map (\<lambda>j. snapshot M (state_at M s m0 (Suc j))) [0..<t])"

text \<open>
  Main-phase iteration \<open>j\<close> (counted from 0) stops the loop when its total loss is NaN, or
  when the early-stopping test holds after its entry has been recorded.
\<close>

definition loss_nan :: "('m, 'p) udm \<Rightarrow> setting \<Rightarrow> 'm \<Rightarrow> nat \<Rightarrow> bool" where
  "loss_nan M s m0 j = isnan (total_loss M s (state_at M s m0 (pretrain_epochs s + j)))"

definition early :: "('m, 'p) udm \<Rightarrow> setting \<Rightarrow> 'm \<Rightarrow> nat \<Rightarrow> bool" where
  "early M s m0 j =
     early_stop s j (map (\<lambda>t. dist_loss M (state_at M s m0 t)) [0..<Suc (pretrain_epochs s + j)])"

subsection \<open>Two concrete models\<close>

text \<open>
  A model whose state counts the optimizer steps taken, with distribution loss 0
  throughout. In \<open>nan_udm\<close> the component loss, and so the total loss, is NaN from the
  third step on; in \<open>constant_udm\<close> it is 0.
\<close>

definition nan_udm :: "(nat, nat) udm" where
  "nan_udm = \<lparr>dist_loss = (\<lambda>m. Fin 0), comp_loss = (\<lambda>m. if m < 3 then Fin 0 else NaN),
              pre_step = Suc, main_step = Suc, snapshot = (\<lambda>m. m)\<rparr>"

definition constant_udm :: "(nat, nat) udm" where
  "constant_udm = \<lparr>dist_loss = (\<lambda>m. Fin 0), comp_loss = (\<lambda>m. Fin 0),
                   pre_step = Suc, main_step = Suc, snapshot = (\<lambda>m. m)\<rparr>"

definition short_setting :: setting where
  "short_setting = \<lparr>pretrain_epochs = 1, min_epochs = 0, max_epochs = 5,
                    precision = 6, constraint_level = 2\<rparr>"


section \<open>Properties\<close>

lemma first_index_from_None:
  "first_index_from P i vs = None \<longleftrightarrow> (\<forall>v \<in> set vs. \<not> P v)"
  by (induction vs arbitrary: i) auto

lemma first_index_from_Some:
  "first_index_from P i vs = Some r \<Longrightarrow>
     i \<le> r \<and> nat (r - i) < length vs \<and> P (vs ! nat (r - i)) \<and>
     (\<forall>j < nat (r - i). \<not> P (vs ! j))"
proof (induction vs arbitrary: i)
  case Nil
  then show ?case by simp
next
  case (Cons v vs)
  show ?case
  proof (cases "P v")
    case True
    with Cons.prems show ?thesis by simp
  next
    case False
    with Cons.prems have rec: "first_index_from P (i + 1) vs = Some r" by simp
    from Cons.IH [OF rec] have ih: "i + 1 \<le> r" "nat (r - (i + 1)) < length vs"
      "P (vs ! nat (r - (i + 1)))" "\<forall>j < nat (r - (i + 1)). \<not> P (vs ! j)" by auto
    have eq: "nat (r - i) = Suc (nat (r - (i + 1)))" using ih(1) by linarith
    show ?thesis
      using ih False unfolding eq by (auto simp: nth_Cons split: nat.splits)
  qed
qed

subsection \<open>Names of a layout\<close>


lemma digit_val_digit_char: "d < 10 \<Longrightarrow> digit_val (digit_char d) = Some d"
proof -
  assume "d < 10"
  then consider "d = 0" | "d = 1" | "d = 2" | "d = 3" | "d = 4" | "d = 5" | "d = 6"
    | "d = 7" | "d = 8" | "d = 9" by force
  then show ?thesis
    by cases (simp_all add: digit_val_def digit_char_def)
qed

lemma digits_value_snoc:
  "digits_value acc (cs @ [c]) =
     (case digits_value acc cs of None \<Rightarrow> None
      | Some a \<Rightarrow> (case digit_val c of None \<Rightarrow> None | Some d \<Rightarrow> Some (10 * a + d)))"
  by (induction cs arbitrary: acc) (auto split: option.splits)

lemma digits_value_str_of_nat: "digits_value 0 (str_of_nat n) = Some n"
proof (induction n rule: str_of_nat.induct)
  case (1 n)
  show ?case
  proof (cases "n < 10")
    case True
    then show ?thesis by (subst str_of_nat.simps) (simp add: digit_val_digit_char)
  next
    case False
    with 1 have ih: "digits_value 0 (str_of_nat (n div 10)) = Some (n div 10)" by simp
    have "str_of_nat n = str_of_nat (n div 10) @ [digit_char (n mod 10)]"
      using False by (subst str_of_nat.simps) simp
    then show ?thesis
      by (simp add: digits_value_snoc ih digit_val_digit_char)
  qed
qed



lemma str_of_nat_inj: "str_of_nat m = str_of_nat n \<Longrightarrow> m = n"
  by (metis digits_value_str_of_nat option.inject)

lemma startswith_simps:
  "startswith (''beta'' @ s) ''beta''"
  "\<not> startswith (''eta'' @ s) ''beta''"
  "startswith (''eta'' @ s) ''eta''"
  "\<not> startswith (''f'' @ s) ''beta''"
  "\<not> startswith (''f'' @ s) ''eta''"
  "startswith (''f'' @ s) ''f''"
  by (simp_all add: startswith_def)

lemma comp_params_Suc: "comp_params (Suc n) = comp_params n @ [beta_param n, eta_param n]"
  by (simp add: comp_params_def)

lemma length_comp_params: "length (comp_params n) = 2 * n"
  by (induction n) (simp_all add: comp_params_Suc, simp add: comp_params_def)

lemma nth_comp_params:
  "i < n \<Longrightarrow> comp_params n ! (2 * i) = beta_param i \<and> comp_params n ! (2 * i + 1) = eta_param i"
proof (induction n)
  case 0
  then show ?case by simp
next
  case (Suc n)
  show ?case
  proof (cases "i < n")
    case True
    with Suc.IH show ?thesis
      by (simp add: comp_params_Suc nth_append length_comp_params)
  next
    case False
    with Suc.prems have "i = n" by simp
    then show ?thesis
      by (simp add: comp_params_Suc nth_append length_comp_params)
  qed
qed

lemma get_params_layout: "1 < k \<Longrightarrow> get_params k = Inr (layout (nat k))"
  by (simp add: get_params_def layout_def comp_params_def nat_diff_distrib)

lemma length_layout: "length (layout n) = 2 * n + (n - 1)"
  by (simp add: layout_def length_comp_params)

lemma nth_layout_beta: "i < n \<Longrightarrow> layout n ! (2 * i) = beta_param i"
  using nth_comp_params [of i n] by (simp add: layout_def nth_append length_comp_params)

lemma nth_layout_eta: "i < n \<Longrightarrow> layout n ! Suc (2 * i) = eta_param i"
  using nth_comp_params [of i n] by (simp add: layout_def nth_append length_comp_params)

lemma nth_layout_f: "i < n - 1 \<Longrightarrow> layout n ! (2 * n + i) = f_param (int n) i"
  by (simp add: layout_def nth_append length_comp_params)

lemma layout_cases:
  assumes "j < length (layout n)"
  obtains (beta) i where "i < n" "j = 2 * i" "layout n ! j = beta_param i"
  | (eta) i where "i < n" "j = Suc (2 * i)" "layout n ! j = eta_param i"
  | (f) i where "i < n - 1" "j = 2 * n + i" "layout n ! j = f_param (int n) i"
proof (cases "j < 2 * n")
  case True
  then have lt: "j div 2 < n" by linarith
  show ?thesis
  proof (cases "even j")
    case True
    then have "j = 2 * (j div 2)" by presburger
    with lt nth_layout_beta [of "j div 2" n] beta show ?thesis by metis
  next
    case False
    then have "j = Suc (2 * (j div 2))" by presburger
    with lt nth_layout_eta [of "j div 2" n] eta show ?thesis by metis
  qed
next
  case False
  then have eq: "j = 2 * n + (j - 2 * n)" by simp
  have lt: "j - 2 * n < n - 1" using assms False by (simp add: length_layout)
  from nth_layout_f [OF lt] eq f lt show ?thesis by metis
qed

lemma location_layout: "j < length (layout n) \<Longrightarrow> p_location (layout n ! j) = j"
  by (erule layout_cases) (simp_all add: beta_param_def eta_param_def f_param_def)

lemma map_location_layout: "map p_location (layout n) = [0..<length (layout n)]"
  by (rule nth_equalityI) (simp_all add: location_layout)

lemma sort_layout: "sort_params_by_location_in_place (layout n) = layout n"
  unfolding sort_params_by_location_in_place_def
  by (rule sort_key_id_if_sorted) (simp add: map_location_layout)

lemma name_slot_layout: "j < length (layout n) \<Longrightarrow> name_slot n (p_name (layout n ! j)) = j"
  by (erule layout_cases)
    (simp_all add: beta_param_def eta_param_def f_param_def name_slot_def startswith_def
      digits_value_str_of_nat)

lemma distinct_names_layout: "distinct (map p_name (layout n))"
proof -
  have "map (name_slot n) (map p_name (layout n)) = [0..<length (layout n)]"
    by (rule nth_equalityI) (simp_all add: name_slot_layout)
  then have "distinct (map (name_slot n) (map p_name (layout n)))" by simp
  then show ?thesis by (simp only: distinct_map)
qed

lemma hd_name_layout: "p \<in> set (layout n) \<Longrightarrow> hd (p_name p) \<in> {CHR ''b'', CHR ''e'', CHR ''f''}"
proof -
  assume "p \<in> set (layout n)"
  then obtain j where j: "j < length (layout n)" "p = layout n ! j"
    by (auto simp: in_set_conv_nth)
  from j(1) show ?thesis unfolding j(2)
    by (rule layout_cases) (simp_all add: beta_param_def eta_param_def f_param_def)
qed

lemma x_not_name_layout: "''x'' \<notin> p_name ` set (layout n)"
proof
  assume "''x'' \<in> p_name ` set (layout n)"
  then obtain p where p: "p \<in> set (layout n)" "p_name p = ''x''" by auto
  from hd_name_layout [OF p(1)] show False unfolding p(2) by simp
qed

lemma distinct_lam_params_layout: "distinct (''x'' # map p_name (layout n))"
  using x_not_name_layout [of n] distinct_names_layout [of n] by simp

lemma get_mixed_weibull_many:
  assumes "1 < k"
  shows "get_mixed_weibull (PyInt k) =
     Inr (\<lparr>lam_params = ''x'' # map p_name (layout (nat k)),
           lam_body = WeibullSum (map frac_term [0..<nat (k - 1)] @ [last_term k])\<rparr>,
          map p_bounds (layout (nat k)), get_constrains k,
          map p_default (layout (nat k)), layout (nat k))"
proof -
  have c: "check_ncomp (PyInt k) = Inr k" using assms by (simp add: check_ncomp_def)
  have l: "get_lambda_string k (layout (nat k)) =
     Inr \<lparr>lam_params = ''x'' # map p_name (layout (nat k)),
           lam_body = WeibullSum (map frac_term [0..<nat (k - 1)] @ [last_term k])\<rparr>"
    using assms by (simp add: get_lambda_string_def)
  show ?thesis
    unfolding get_mixed_weibull_def c
    by (simp add: get_params_layout [OF assms] sort_layout l exec_lambda_def
        distinct_lam_params_layout get_bounds_def get_defaults_def Let_def
        del: distinct.simps)
qed

lemma get_mixed_weibull_one:
  "get_mixed_weibull (PyInt 1) =
     Inr (\<lparr>lam_params = [''x'', ''beta'', ''eta''], lam_body = SingleWeibull\<rparr>,
          [(INFINITESIMAL, None), (INFINITESIMAL, None)], get_constrains 1, [1, 1],
          [\<lparr>p_name = ''beta'', p_default = 1, p_location = 0, p_bounds = (INFINITESIMAL, None)\<rparr>,
           \<lparr>p_name = ''eta'', p_default = 1, p_location = 1, p_bounds = (INFINITESIMAL, None)\<rparr>])"
  by (simp add: get_mixed_weibull_def check_ncomp_def get_params_def
      sort_params_by_location_in_place_def get_lambda_string_def exec_lambda_def
      get_bounds_def get_defaults_def)

lemma INFINITESIMAL_pos: "0 < INFINITESIMAL"
  by (simp add: INFINITESIMAL_def)

lemma layout_front:
  assumes "j < 2 * n"
  shows "p_bounds (layout n ! j) = (INFINITESIMAL, None) \<and> p_default (layout n ! j) = 1"
proof -
  have "j < length (layout n)" using assms by (simp add: length_layout)
  then show ?thesis
    by (cases rule: layout_cases) (use assms in \<open>simp_all add: beta_param_def eta_param_def\<close>)
qed

lemma layout_back:
  assumes "2 * n \<le> j" "j < length (layout n)"
  shows "p_bounds (layout n ! j) = (0, Some 1) \<and> p_default (layout n ! j) = 1 / real n"
  using assms(2)
  by (cases rule: layout_cases) (use assms(1) in \<open>simp_all add: f_param_def\<close>)

text \<open>
  Claim C1. For every positive component count \<open>k\<close>, \<open>get_mixed_weibull\<close> returns a layout
  of \<open>2k + max(k-1, 0)\<close> parameters in location order, with the bounds and defaults listed
  in the same order: for \<open>k = 1\<close> the two parameters \<open>beta\<close> and \<open>eta\<close>; for \<open>k > 1\<close> the
  pair \<open>beta_i\<close>, \<open>eta_i\<close> of every component followed by the \<open>k-1\<close> fractions \<open>f_i\<close>.
  Every shape and scale has bounds \<open>(INFINITESIMAL, None)\<close> and default 1, every fraction
  has bounds \<open>(0, 1)\<close> and default \<open>1/k\<close>, and \<open>INFINITESIMAL\<close> is positive and at most
  \<open>10^-100\<close>.
\<close>

theorem get_mixed_weibull_layout:
  assumes "0 < k"
  shows "\<exists>f bounds cons defaults ps.
    get_mixed_weibull (PyInt k) = Inr (f, bounds, cons, defaults, ps) \<and>
    length ps = nat (2 * k + max (k - 1) 0) \<and>
    length bounds = length ps \<and> length defaults = length ps \<and>
    (\<forall>j < length ps. p_location (ps ! j) = j \<and> p_bounds (ps ! j) = bounds ! j \<and>
        p_default (ps ! j) = defaults ! j) \<and>
    (k = 1 \<longrightarrow> map p_name ps = [''beta'', ''eta'']) \<and>
    (1 < k \<longrightarrow>
       (\<forall>i < nat k. p_name (ps ! (2 * i)) = ''beta'' @ str_of_nat (i + 1) \<and>
                     p_name (ps ! (2 * i + 1)) = ''eta'' @ str_of_nat (i + 1)) \<and>
       (\<forall>i < nat k - 1. p_name (ps ! (2 * nat k + i)) = ''f'' @ str_of_nat (i + 1))) \<and>
    (\<forall>j < 2 * nat k. bounds ! j = (INFINITESIMAL, None) \<and> defaults ! j = 1) \<and>
    (\<forall>j. 2 * nat k \<le> j \<and> j < length ps \<longrightarrow>
        bounds ! j = (0, Some 1) \<and> defaults ! j = 1 / real_of_int k) \<and>
    0 < INFINITESIMAL \<and> INFINITESIMAL \<le> 1 / 10 ^ 100"
proof (cases "k = 1")
  case True
  have small: "\<forall>j < (2::nat). [(INFINITESIMAL, None), (INFINITESIMAL, None)] ! j
      = (INFINITESIMAL, None :: real option) \<and> [1, 1 :: real] ! j = 1"
    by (simp add: nth_Cons split: nat.splits)
  have locs: "\<forall>j < (2::nat).
     p_location ([\<lparr>p_name = ''beta'', p_default = 1, p_location = 0, p_bounds = (INFINITESIMAL, None)\<rparr>,
           \<lparr>p_name = ''eta'', p_default = 1, p_location = 1, p_bounds = (INFINITESIMAL, None)\<rparr>] ! j) = j
     \<and> p_bounds ([\<lparr>p_name = ''beta'', p_default = 1, p_location = 0, p_bounds = (INFINITESIMAL, None)\<rparr>,
           \<lparr>p_name = ''eta'', p_default = 1, p_location = 1, p_bounds = (INFINITESIMAL, None)\<rparr>] ! j)
        = [(INFINITESIMAL, None), (INFINITESIMAL, None)] ! j
     \<and> p_default ([\<lparr>p_name = ''beta'', p_default = 1, p_location = 0, p_bounds = (INFINITESIMAL, None)\<rparr>,
           \<lparr>p_name = ''eta'', p_default = 1, p_location = 1, p_bounds = (INFINITESIMAL, None)\<rparr>] ! j)
        = [1, 1] ! j"
    by (simp add: nth_Cons split: nat.splits)
  show ?thesis
    unfolding True get_mixed_weibull_one
    using small locs by (simp add: INFINITESIMAL_pos) (simp add: INFINITESIMAL_def)
next
  case False
  with assms have k: "1 < k" by simp
  let ?n = "nat k"
  let ?L = "layout ?n"
  have n3: "real ?n = real_of_int k" using k by simp
  show ?thesis
  proof (intro exI conjI)
    show "get_mixed_weibull (PyInt k) =
      Inr (\<lparr>lam_params = ''x'' # map p_name ?L,
           lam_body = WeibullSum (map frac_term [0..<nat (k - 1)] @ [last_term k])\<rparr>,
          map p_bounds ?L, get_constrains k, map p_default ?L, ?L)"
      by (rule get_mixed_weibull_many [OF k])
    show "length ?L = nat (2 * k + max (k - 1) 0)"
      using k by (simp add: length_layout)
    show "length (map p_bounds ?L) = length ?L" by simp
    show "length (map p_default ?L) = length ?L" by simp
    show "\<forall>j < length ?L. p_location (?L ! j) = j \<and>
       p_bounds (?L ! j) = map p_bounds ?L ! j \<and> p_default (?L ! j) = map p_default ?L ! j"
      by (simp add: location_layout)
    show "k = 1 \<longrightarrow> map p_name ?L = [''beta'', ''eta'']" using False by simp
    show "1 < k \<longrightarrow>
       (\<forall>i < ?n. p_name (?L ! (2 * i)) = ''beta'' @ str_of_nat (i + 1) \<and>
                     p_name (?L ! (2 * i + 1)) = ''eta'' @ str_of_nat (i + 1)) \<and>
       (\<forall>i < ?n - 1. p_name (?L ! (2 * ?n + i)) = ''f'' @ str_of_nat (i + 1))"
      by (simp add: nth_layout_beta nth_layout_eta nth_layout_f
          beta_param_def eta_param_def f_param_def)
    show "\<forall>j < 2 * ?n. map p_bounds ?L ! j = (INFINITESIMAL, None) \<and> map p_default ?L ! j = 1"
      using layout_front [of _ ?n] by (simp add: length_layout)
    show "\<forall>j. 2 * ?n \<le> j \<and> j < length ?L \<longrightarrow>
        map p_bounds ?L ! j = (0, Some 1) \<and> map p_default ?L ! j = 1 / real_of_int k"
      using layout_back [of ?n] n3 by simp
    show "0 < INFINITESIMAL" by (rule INFINITESIMAL_pos)
    show "INFINITESIMAL \<le> 1 / 10 ^ 100" by (simp add: INFINITESIMAL_def)
  qed
qed

theorem get_mixed_weibull_layout_witness:
  "0 < (3::int) \<and>
   (\<exists>f bounds cons defaults ps.
      get_mixed_weibull (PyInt 3) = Inr (f, bounds, cons, defaults, ps) \<and>
      length ps = 8 \<and> p_name (ps ! 4) = ''beta'' @ str_of_nat 3 \<and>
      bounds ! 0 = (INFINITESIMAL, None) \<and> defaults ! 7 = 1 / 3)"
proof -
  have h: "0 < (3::int)" by simp
  from get_mixed_weibull_layout [OF h]
  obtain f bounds cons defaults ps where
    r: "get_mixed_weibull (PyInt 3) = Inr (f, bounds, cons, defaults, ps)"
    and len: "length ps = nat (2 * 3 + max (3 - 1) 0)"
    and names: "(1::int) < 3 \<longrightarrow>
       (\<forall>i < nat 3. p_name (ps ! (2 * i)) = ''beta'' @ str_of_nat (i + 1) \<and>
                     p_name (ps ! (2 * i + 1)) = ''eta'' @ str_of_nat (i + 1)) \<and>
       (\<forall>i < nat 3 - 1. p_name (ps ! (2 * nat 3 + i)) = ''f'' @ str_of_nat (i + 1))"
    and front: "\<forall>j < 2 * nat 3. bounds ! j = (INFINITESIMAL, None) \<and> defaults ! j = 1"
    and rear: "\<forall>j. 2 * nat 3 \<le> j \<and> j < length ps \<longrightarrow>
        bounds ! j = (0, Some 1) \<and> defaults ! j = 1 / real_of_int 3"
    by blast
  have l8: "length ps = 8" using len by simp
  from names have "\<forall>i < nat 3. p_name (ps ! (2 * i)) = ''beta'' @ str_of_nat (i + 1)"
    by simp
  then have "(2::nat) < nat 3 \<longrightarrow> p_name (ps ! (2 * 2)) = ''beta'' @ str_of_nat (2 + 1)"
    by (rule spec)
  then have n4: "p_name (ps ! 4) = ''beta'' @ str_of_nat 3" by simp
  from front have "(0::nat) < 2 * nat 3 \<longrightarrow> bounds ! 0 = (INFINITESIMAL, None) \<and> defaults ! 0 = 1"
    by (rule spec)
  then have b0: "bounds ! 0 = (INFINITESIMAL, None)" by simp
  from rear have "2 * nat 3 \<le> (7::nat) \<and> 7 < length ps \<longrightarrow>
        bounds ! 7 = (0, Some 1) \<and> defaults ! 7 = 1 / real_of_int 3"
    by (rule spec)
  then have d7: "defaults ! 7 = 1 / 3" using l8 by simp
  from h r l8 n4 b0 d7 show ?thesis by blast
qed

subsection \<open>The constraint\<close>

text \<open>
  For more than one component the slice \<open>args[1-ncomp:]\<close> holds the \<open>ncomp - 1\<close> fractions
  at the end of a vector of the layout.
\<close>

lemma constrain_many:
  assumes "1 < k" "length args = length (layout (nat k))"
  shows "map (\<lambda>c. c_fun c args) (get_constrains k)
           = [1 - sum_list (drop (2 * nat k) args) + INFINITESIMAL]"
proof -
  have "nat (int (2 * nat k + (nat k - 1)) + (1 - k)) = 2 * nat k"
    using assms(1) by linarith
  then show ?thesis
    using assms by (simp add: get_constrains_def py_slice_from_def py_norm_def length_layout)
qed

text \<open>
  Claim C2, at one component. The slice \<open>args[1-ncomp:]\<close> is \<open>args[0:]\<close>, the whole vector
  \<open>[beta, eta]\<close>, so the constraint is \<open>1 - (beta + eta) + INFINITESIMAL\<close>: on the default
  vector \<open>[1, 1]\<close> of the one-component layout it is negative, where the claim has
  \<open>1 + INFINITESIMAL\<close> and no restriction.
\<close>

theorem constrain_one_component:
  "\<exists>f bounds cons defaults ps.
     get_mixed_weibull (PyInt 1) = Inr (f, bounds, cons, defaults, ps) \<and>
     defaults = [1, 1] \<and>
     map (\<lambda>c. c_fun c defaults) cons = [INFINITESIMAL - 1] \<and>
     INFINITESIMAL - 1 < 0"
  unfolding get_mixed_weibull_one
  by (simp add: get_constrains_def py_slice_from_def py_norm_def INFINITESIMAL_def)

subsection \<open>The valid data range and the window\<close>

lemma py_slice_from_nonneg: "0 \<le> i \<Longrightarrow> py_slice_from xs i = drop (nat i) xs"
  by (simp add: py_slice_from_def py_norm_def min_def)

lemma valid_range_start:
  assumes "get_valid_data_range y = (s, e)"
  shows "if \<exists>v \<in> set y. py_gt0 v
         then 0 \<le> s \<and> nat s < length y \<and> py_gt0 (y ! nat s) \<and> (\<forall>j < nat s. \<not> py_gt0 (y ! j))
         else s = 0"
proof (cases "first_index_from py_gt0 0 y")
  case None
  then have "s = 0" using assms by (simp add: get_valid_data_range_def Let_def)
  moreover from None have "\<not> (\<exists>v \<in> set y. py_gt0 v)" by (simp add: first_index_from_None)
  ultimately show ?thesis by simp
next
  case (Some i)
  then have s: "s = i" using assms by (simp add: get_valid_data_range_def Let_def)
  from Some have ex: "\<exists>v \<in> set y. py_gt0 v"
    using first_index_from_None [of py_gt0 0 y] by auto
  from first_index_from_Some [OF Some] ex show ?thesis by (simp add: s)
qed

lemma valid_range_start_nonneg: "get_valid_data_range y = (s, e) \<Longrightarrow> 0 \<le> s"
  using valid_range_start [of y s e] by (simp split: if_splits)

lemma valid_range_end:
  assumes "get_valid_data_range y = (s, e)"
  shows "if \<exists>j. nat s < j \<and> j < length y \<and> py_eq0 (y ! j)
         then s < e \<and> nat e < length y \<and> py_eq0 (y ! nat e) \<and>
              (\<forall>j. nat s < j \<and> j < nat e \<longrightarrow> \<not> py_eq0 (y ! j))
         else e = - 1"
proof -
  have s0: "0 \<le> s" using assms by (rule valid_range_start_nonneg)
  let ?rest = "drop (Suc (nat s)) y"
  have sl: "py_slice_from y (s + 1) = ?rest"
    using s0 by (simp add: py_slice_from_nonneg nat_add_distrib)
  have sdef: "s = (case first_index_from py_gt0 0 y of None \<Rightarrow> 0 | Some i \<Rightarrow> i)"
    using assms by (simp add: get_valid_data_range_def Let_def)
  have edef: "e = (case first_index_from py_eq0 (s + 1) ?rest of None \<Rightarrow> - 1 | Some i \<Rightarrow> i)"
    using assms sl unfolding get_valid_data_range_def Let_def sdef [symmetric] by simp
  show ?thesis
  proof (cases "first_index_from py_eq0 (s + 1) ?rest")
    case None
    then have e: "e = - 1" using edef by simp
    from None have no: "\<forall>v \<in> set ?rest. \<not> py_eq0 v" by (simp add: first_index_from_None)
    have nex: "\<not> (\<exists>j. nat s < j \<and> j < length y \<and> py_eq0 (y ! j))"
    proof
      assume "\<exists>j. nat s < j \<and> j < length y \<and> py_eq0 (y ! j)"
      then obtain j where j: "nat s < j" "j < length y" "py_eq0 (y ! j)" by blast
      then have "?rest ! (j - Suc (nat s)) = y ! j" "j - Suc (nat s) < length ?rest"
        by (simp_all add: nth_drop)
      then have "y ! j \<in> set ?rest"
        by (metis nth_mem)
      with no j(3) show False by blast
    qed
    show ?thesis by (subst if_not_P [OF nex]) (rule e)
  next
    case (Some r)
    then have e: "e = r" using edef by simp
    from first_index_from_Some [OF Some]
    have r: "s + 1 \<le> r" "nat (r - (s + 1)) < length ?rest"
      "py_eq0 (?rest ! nat (r - (s + 1)))"
      "\<forall>j < nat (r - (s + 1)). \<not> py_eq0 (?rest ! j)" by auto
    have idx: "Suc (nat s) + nat (r - (s + 1)) = nat r" using s0 r(1) by linarith
    have lt: "nat r < length y" using r(2) idx by simp
    have z: "py_eq0 (y ! nat r)" using r(3) lt idx by (simp add: nth_drop)
    have before: "\<forall>j. nat s < j \<and> j < nat r \<longrightarrow> \<not> py_eq0 (y ! j)"
    proof (intro allI impI)
      fix j assume j: "nat s < j \<and> j < nat r"
      then have "j - Suc (nat s) < nat (r - (s + 1))" using idx by linarith
      with r(4) have "\<not> py_eq0 (?rest ! (j - Suc (nat s)))" by blast
      moreover have "?rest ! (j - Suc (nat s)) = y ! j"
        using j lt by (simp add: nth_drop)
      ultimately show "\<not> py_eq0 (y ! j)" by simp
    qed
    have ex: "\<exists>j. nat s < j \<and> j < length y \<and> py_eq0 (y ! j)"
      using lt z s0 r(1) by (intro exI [of _ "nat r"]) auto
    have "s < e \<and> nat e < length y \<and> py_eq0 (y ! nat e) \<and>
              (\<forall>j. nat s < j \<and> j < nat e \<longrightarrow> \<not> py_eq0 (y ! j))"
      using r(1) lt z before unfolding e by simp
    then show ?thesis by (subst if_P [OF ex])
  qed
qed

lemma example_range:
  "get_valid_data_range [Fin 0, Fin 0, Fin 0, Fin 2, Fin 5, Fin 3, Fin 0, Fin 0, Fin 1, Fin 0] = (3, 6)"
  by (simp add: get_valid_data_range_def py_slice_from_def py_norm_def)

lemma preprocess_data_window:
  assumes "y_data self = PyArray y" "distribution_type self = Weibull"
    "get_valid_data_range y = (s, e)"
  shows "preprocess_data self =
     Inr (self\<lparr>start_index := Some s, end_index := Some e,
              x_to_fit := Some (map (\<lambda>i. int i + 1) [0..<nat (e - s)]),
              y_to_fit := Some (py_slice y s e)\<rparr>)"
  using assms by (simp add: preprocess_data_def)

lemma py_slice_window:
  assumes "0 \<le> s" "s < e" "nat e < length y"
  shows "py_slice y s e = take (nat (e - s)) (drop (nat s) y)"
  using assms by (simp add: py_slice_def py_norm_def Let_def min_def nat_diff_distrib)

subsection \<open>The resolver: construction, window, data and setters\<close>

lemma init_resolver_ok:
  "\<exists>r. init_resolver a b c d e f = Inr r \<and> distribution_type r = Weibull \<and>
       funcs_family r = Weibull \<and> ncomp r = 2 \<and> real_x r = PyNone \<and> y_data r = PyNone \<and>
       start_index r = None \<and> end_index r = None \<and> x_to_fit r = None \<and> y_to_fit r = None"
proof -
  have "(1::int) < 2" by simp
  from get_mixed_weibull_many [OF this] show ?thesis
    by (simp add: init_resolver_def get_mixed_func_def)
qed

text \<open>
  Where the vector has a strictly positive value and an exactly-zero value after the
  first positive one, the detection returns the index \<open>s\<close> of the first positive value and
  the index \<open>e\<close> of the first zero after it, and \<open>preprocess_data\<close> stores the window of
  the \<open>e - s\<close> values from \<open>s\<close> on together with the local coordinates \<open>1, ..., e - s\<close>.
\<close>

lemma valid_range_found:
  assumes "y_data self = PyArray y" "distribution_type self = Weibull"
    "get_valid_data_range y = (s, e)"
    "\<exists>v \<in> set y. py_gt0 v" "\<exists>j. nat s < j \<and> j < length y \<and> py_eq0 (y ! j)"
  shows "0 \<le> s \<and> nat s < length y \<and> py_gt0 (y ! nat s) \<and> (\<forall>j < nat s. \<not> py_gt0 (y ! j))"
    and "s < e \<and> nat e < length y \<and> py_eq0 (y ! nat e) \<and>
         (\<forall>j. nat s < j \<and> j < nat e \<longrightarrow> \<not> py_eq0 (y ! j))"
    and "preprocess_data self =
           Inr (self\<lparr>start_index := Some s, end_index := Some e,
                    x_to_fit := Some (map (\<lambda>i. int i + 1) [0..<nat (e - s)]),
                    y_to_fit := Some (take (nat (e - s)) (drop (nat s) y))\<rparr>)"
    and "length (take (nat (e - s)) (drop (nat s) y)) = nat (e - s)"
proof -
  show a: "0 \<le> s \<and> nat s < length y \<and> py_gt0 (y ! nat s) \<and> (\<forall>j < nat s. \<not> py_gt0 (y ! j))"
    using valid_range_start [OF assms(3)] by (subst (asm) if_P [OF assms(4)])
  show b: "s < e \<and> nat e < length y \<and> py_eq0 (y ! nat e) \<and>
         (\<forall>j. nat s < j \<and> j < nat e \<longrightarrow> \<not> py_eq0 (y ! j))"
    using valid_range_end [OF assms(3)] by (subst (asm) if_P [OF assms(5)])
  have w: "py_slice y s e = take (nat (e - s)) (drop (nat s) y)"
    using a b by (simp add: py_slice_window)
  show "preprocess_data self =
           Inr (self\<lparr>start_index := Some s, end_index := Some e,
                    x_to_fit := Some (map (\<lambda>i. int i + 1) [0..<nat (e - s)]),
                    y_to_fit := Some (take (nat (e - s)) (drop (nat s) y))\<rparr>)"
    unfolding preprocess_data_window [OF assms(1-3)] w ..
  show "length (take (nat (e - s)) (drop (nat s) y)) = nat (e - s)"
    using a b by simp linarith
qed

text \<open>On the vector \<open>[0,0,0,2,5,3,0,0,1,0]\<close> the window is \<open>[2,5,3]\<close> at coordinates 1, 2, 3.\<close>

lemma example_window:
  assumes "distribution_type self = Weibull"
  shows "preprocess_data
        (self\<lparr>y_data := PyArray [Fin 0, Fin 0, Fin 0, Fin 2, Fin 5, Fin 3, Fin 0, Fin 0, Fin 1, Fin 0]\<rparr>)
     = Inr (self\<lparr>y_data := PyArray [Fin 0, Fin 0, Fin 0, Fin 2, Fin 5, Fin 3, Fin 0, Fin 0, Fin 1, Fin 0],
                start_index := Some 3, end_index := Some 6,
                x_to_fit := Some [1, 2, 3], y_to_fit := Some [Fin 2, Fin 5, Fin 3]\<rparr>)"
proof -
  let ?y = "[Fin 0, Fin 0, Fin 0, Fin 2, Fin 5, Fin 3, Fin 0, Fin 0, Fin 1, Fin 0]"
  have a: "y_data (self\<lparr>y_data := PyArray ?y\<rparr>) = PyArray ?y" by simp
  have b: "distribution_type (self\<lparr>y_data := PyArray ?y\<rparr>) = Weibull" using assms by simp
  have x: "map (\<lambda>i. int i + 1) [0..<nat (6 - 3)] = [1, 2, 3]"
    by (simp add: upt_rec)
  have w: "py_slice ?y 3 6 = [Fin 2, Fin 5, Fin 3]"
    by (simp add: py_slice_def py_norm_def)
  show ?thesis
    unfolding preprocess_data_window [OF a b example_range] x w by simp
qed

text \<open>
  Claim C3, at a vector with no zero after its first positive value. For \<open>[0.5, 0.5]\<close>
  the detection returns the initial end index \<open>-1\<close>, and \<open>preprocess_data\<close> stores no local
  coordinate at all (\<open>range(-1)\<close> is empty) beside the one value \<open>y[0:-1] = [0.5]\<close>: the
  two arrays to fit differ in length and the last class is not in the window.
\<close>

theorem valid_range_without_zero:
  "get_valid_data_range [Fin (1 / 2), Fin (1 / 2)] = (0, - 1) \<and>
   preprocess_data (self\<lparr>distribution_type := Weibull,
                         y_data := PyArray [Fin (1 / 2), Fin (1 / 2)]\<rparr>) =
     Inr (self\<lparr>distribution_type := Weibull, y_data := PyArray [Fin (1 / 2), Fin (1 / 2)],
              start_index := Some 0, end_index := Some (- 1),
              x_to_fit := Some [], y_to_fit := Some [Fin (1 / 2)]\<rparr>)"
proof -
  have r: "get_valid_data_range [Fin (1 / 2), Fin (1 / 2)] = (0, - 1)"
    by (simp add: get_valid_data_range_def py_slice_from_def py_norm_def)
  have w: "py_slice [Fin (1 / 2), Fin (1 / 2)] 0 (- 1) = [Fin (1 / 2)]"
    by (simp add: py_slice_def py_norm_def)
  show ?thesis
    using r w by (simp add: preprocess_data_def)
qed

text \<open>
  Every input that \<open>validate_data\<close> rejects makes \<open>feed_data\<close> raise AttributeError from the
  read of \<open>e.message\<close>, whatever the hooks are: \<open>on_data_invalid\<close> is not reached.
\<close>

lemma feed_data_invalid:
  "validate_data x y = Inl e \<Longrightarrow> feed_data h self x y = Inl AttributeError"
  by (cases e)
    (auto simp: feed_data_def exception_message_def validate_data_def
      split: if_splits pyvalue.splits)

text \<open>
  Claim C6, at the input \<open>x = None\<close>: \<open>feed_data\<close> raises AttributeError to its caller and
  does not invoke the hook.
\<close>

theorem feed_data_none_raises: "feed_data h self PyNone y = Inl AttributeError"
  by (simp add: feed_data_def validate_data_def exception_message_def)

text \<open>
  Claim C10. Assigning to \<open>ncomp\<close> a value that is not an int, or an int that is at most 1,
  returns the resolver unchanged and raises nothing; assigning an int \<open>n > 1\<close> sets \<open>ncomp\<close>
  to \<open>n\<close> and installs the mixture function, bounds, constraints, defaults, layout and
  initial guess of \<open>get_mixed_weibull(n)\<close>; assigning to \<open>distribution_type\<close> a value that is
  not a \<open>DistributionType\<close> returns the resolver unchanged.
\<close>

theorem setters_silent:
  "((\<forall>n. v = PyInt n \<longrightarrow> n \<le> 1) \<longrightarrow> set_ncomp self v = Inr self) \<and>
   (1 < n \<and> funcs_family self = Weibull \<longrightarrow>
      (\<exists>f b c d p. get_mixed_weibull (PyInt n) = Inr (f, b, c, d, p) \<and>
         set_ncomp self (PyInt n) =
           Inr (self\<lparr>ncomp := n, mixed_func := f, bounds := b, the_constrains := c,
                     defaults := d, params := p, initial_guess := d\<rparr>))) \<and>
   ((\<forall>d. w \<noteq> PyDistributionType d) \<longrightarrow> set_distribution_type self w = Inr self)"
proof (intro conjI impI)
  assume "\<forall>n. v = PyInt n \<longrightarrow> n \<le> 1"
  then show "set_ncomp self v = Inr self"
    by (cases v) (simp_all add: set_ncomp_def)
next
  assume a: "1 < n \<and> funcs_family self = Weibull"
  then have n: "1 < n" by simp
  show "\<exists>f b c d p. get_mixed_weibull (PyInt n) = Inr (f, b, c, d, p) \<and>
         set_ncomp self (PyInt n) =
           Inr (self\<lparr>ncomp := n, mixed_func := f, bounds := b, the_constrains := c,
                     defaults := d, params := p, initial_guess := d\<rparr>)"
    using a by (simp add: get_mixed_weibull_many [OF n] set_ncomp_def refresh_by_ncomp_def
        get_mixed_func_def)
next
  assume "\<forall>d. w \<noteq> PyDistributionType d"
  then show "set_distribution_type self w = Inr self"
    by (cases w) (simp_all add: set_distribution_type_def)
qed

theorem setters_silent_witness:
  "\<exists>r. init_resolver 100 3 (1 / 10 ^ 100) 1000 (1 / 10 ^ 8) 500 = Inr r \<and>
     set_ncomp r (PyInt 1) = Inr r \<and>
     set_ncomp r (PyBool True) = Inr r \<and>
     set_distribution_type r (PyStr ''Weibull'') = Inr r \<and>
     (\<exists>r'. set_ncomp r (PyInt 3) = Inr r' \<and> ncomp r' = 3 \<and> length (params r') = 8)"
proof -
  obtain r where r: "init_resolver 100 3 (1 / 10 ^ 100) 1000 (1 / 10 ^ 8) 500 = Inr r"
    "funcs_family r = Weibull"
    using init_resolver_ok by blast
  have v1: "\<forall>n. PyInt 1 = PyInt n \<longrightarrow> n \<le> 1" by simp
  have v2: "\<forall>n. PyBool True \<noteq> PyInt n" by simp
  have w: "\<forall>d. PyStr ''Weibull'' \<noteq> PyDistributionType d" by simp
  have n3: "(1::int) < 3 \<and> funcs_family r = Weibull" using r(2) by simp
  from setters_silent [of "PyInt 1" r 3 "PyStr ''Weibull''"] v1 w n3
  have a: "set_ncomp r (PyInt 1) = Inr r"
    and b: "set_distribution_type r (PyStr ''Weibull'') = Inr r"
    and c: "\<exists>f b c d p. get_mixed_weibull (PyInt 3) = Inr (f, b, c, d, p) \<and>
         set_ncomp r (PyInt 3) =
           Inr (r\<lparr>ncomp := 3, mixed_func := f, bounds := b, the_constrains := c,
                  defaults := d, params := p, initial_guess := d\<rparr>)"
    by blast+
  from setters_silent [of "PyBool True" r 3 "PyStr ''Weibull''"] v2
  have d: "set_ncomp r (PyBool True) = Inr r" by blast
  have "(1::int) < 3" by simp
  from c get_mixed_weibull_many [OF this]
  have e: "\<exists>r'. set_ncomp r (PyInt 3) = Inr r' \<and> ncomp r' = 3 \<and> length (params r') = 8"
    by (auto simp: length_layout)
  from r(1) a b d e show ?thesis by blast
qed

subsection \<open>Decoding and sorting\<close>

































subsection \<open>The mixture function on a vector of the layout\<close>

lemma lookup_x: "lookup (layout_env n x v) ''x'' = Inr x"
  by (simp add: lookup_def layout_env_def)

lemma lookup_layout:
  assumes "j < length (layout n)" "length v = length (layout n)"
  shows "lookup (layout_env n x v) (p_name (layout n ! j)) = Inr (v ! j)"
proof -
  have "map_of (zip (''x'' # map p_name (layout n)) (x # v))
          ((''x'' # map p_name (layout n)) ! Suc j) = Some ((x # v) ! Suc j)"
    by (rule map_of_zip_nth) (use assms distinct_lam_params_layout [of n] in simp_all)
  then show ?thesis using assms(1) by (simp add: lookup_def layout_env_def)
qed

lemma lookup_beta:
  assumes "i < n" "length v = length (layout n)"
  shows "lookup (layout_env n x v) (''beta'' @ str_of_nat (Suc i))
     = Inr (v ! (2 * i))"
proof -
  have j: "2 * i < length (layout n)" using assms(1) by (simp add: length_layout)
  have "p_name (layout n ! (2 * i)) = ''beta'' @ str_of_nat (Suc i)"
    by (simp add: nth_layout_beta [OF assms(1)] beta_param_def)
  with lookup_layout [OF j assms(2), of x] show ?thesis by simp
qed

lemma lookup_eta:
  assumes "i < n" "length v = length (layout n)"
  shows "lookup (layout_env n x v) (''eta'' @ str_of_nat (Suc i))
     = Inr (v ! Suc (2 * i))"
proof -
  have j: "Suc (2 * i) < length (layout n)" using assms(1) by (simp add: length_layout)
  have "p_name (layout n ! Suc (2 * i)) = ''eta'' @ str_of_nat (Suc i)"
    by (simp add: nth_layout_eta [OF assms(1)] eta_param_def)
  with lookup_layout [OF j assms(2), of x] show ?thesis by simp
qed

lemma lookup_f:
  assumes "i < n - 1" "length v = length (layout n)"
  shows "lookup (layout_env n x v) (''f'' @ str_of_nat (Suc i))
     = Inr (v ! (2 * n + i))"
proof -
  have j: "2 * n + i < length (layout n)" using assms(1) by (simp add: length_layout)
  have "p_name (layout n ! (2 * n + i)) = ''f'' @ str_of_nat (Suc i)"
    by (simp add: nth_layout_f [OF assms(1)] f_param_def)
  with lookup_layout [OF j assms(2), of x] show ?thesis by simp
qed

lemma eval_minus_append:
  "eval_minus env acc (ns @ ms) =
     (case eval_minus env acc ns of Inl e \<Rightarrow> Inl e | Inr a \<Rightarrow> eval_minus env a ms)"
  by (induction ns arbitrary: acc) (auto split: sum.splits)

lemma eval_minus_fracs:
  assumes "m \<le> n - 1" "length v = length (layout n)"
  shows "eval_minus (layout_env n x v) acc
           (map (\<lambda>i. ''f'' @ str_of_nat (Suc i)) [0..<m])
         = Inr (acc - (\<Sum>j<m. v ! (2 * n + j)))"
  using assms(1)
proof (induction m)
  case 0
  then show ?case by simp
next
  case (Suc m)
  then have m: "m < n - 1" by simp
  have ih: "eval_minus (layout_env n x v) acc
           (map (\<lambda>i. ''f'' @ str_of_nat (Suc i)) [0..<m])
         = Inr (acc - (\<Sum>j<m. v ! (2 * n + j)))"
    using Suc by simp
  have up: "map (\<lambda>i. ''f'' @ str_of_nat (Suc i)) [0..<Suc m]
      = map (\<lambda>i. ''f'' @ str_of_nat (Suc i)) [0..<m] @ [''f'' @ str_of_nat (Suc m)]"
    by simp
  show ?case
    unfolding up eval_minus_append ih
    by (simp add: lookup_f [OF m assms(2)] del: append.simps)
qed


lemma eval_term_last_gen:
  assumes "length v = length (layout (Suc m))"
  shows "eval_term (layout_env (Suc m) x v)
           (WOneMinus (map (\<lambda>i. ''f'' @ str_of_nat (Suc i)) [0..<m]),
            ''beta'' @ str_of_nat (Suc m), ''eta'' @ str_of_nat (Suc m))
     = Inr ((1 - (\<Sum>j<m. v ! (2 * Suc m + j))) * weibull x (v ! (2 * m)) (v ! Suc (2 * m)))"
proof -
  have i: "m < Suc m" by simp
  have le: "m \<le> Suc m - 1" by simp
  show ?thesis
    by (simp add: eval_term_def lookup_x eval_minus_fracs [OF le assms]
        lookup_beta [OF i assms] lookup_eta [OF i assms] del: append.simps)
qed

lemma eval_term_last:
  assumes "1 < k" "length v = length (layout (nat k))"
  shows "eval_term (layout_env (nat k) x v) (last_term k)
     = Inr ((1 - (\<Sum>j<nat k - 1. v ! (2 * nat k + j)))
            * weibull x (v ! (2 * (nat k - 1))) (v ! Suc (2 * (nat k - 1))))"
proof -
  define m where "m = nat k - 1"
  have s: "nat k = Suc m" "nat (k - 1) = m" using assms(1) by (simp_all add: m_def)
  have t: "last_term k =
     (WOneMinus (map (\<lambda>i. ''f'' @ str_of_nat (Suc i)) [0..<m]),
      ''beta'' @ str_of_nat (Suc m), ''eta'' @ str_of_nat (Suc m))"
    unfolding last_term_def s by simp
  have "nat k - 1 = m" by (simp add: m_def)
  then show ?thesis
    unfolding t using eval_term_last_gen [of v m x] assms(2) unfolding s(1)
    by simp
qed












subsection \<open>The run of the joint resolver\<close>

lemma state_at_Suc_pre:
  "t < pretrain_epochs s \<Longrightarrow> state_at M s m0 (Suc t) = pre_step M (state_at M s m0 t)"
  by (simp add: state_at_def)

lemma state_at_Suc_main:
  "pretrain_epochs s \<le> t \<Longrightarrow> state_at M s m0 (Suc t) = main_step M (state_at M s m0 t)"
  by (auto simp: state_at_def Suc_diff_le)

lemma run_upto_0: "run_upto M s m0 0 = (m0, [], [], [])"
  by (simp add: run_upto_def state_at_def)

lemma run_upto_Suc:
  "run_upto M s m0 (Suc t) =
     (state_at M s m0 (Suc t),
      map (\<lambda>j. dist_loss M (state_at M s m0 j)) [0..<t] @ [dist_loss M (state_at M s m0 t)],
      map (cl_at M s m0) [0..<t] @ [cl_at M s m0 t],
      map (\<lambda>j. snapshot M (state_at M s m0 (Suc j))) [0..<t] @ [snapshot M (state_at M s m0 (Suc t))])"
  by (simp add: run_upto_def)

lemma pretrain_run:
  "t + n \<le> pretrain_epochs s \<Longrightarrow> pretrain_loop M n (run_upto M s m0 t) = run_upto M s m0 (t + n)"
proof (induction n arbitrary: t)
  case 0
  then show ?case by simp
next
  case (Suc n)
  then have t: "t < pretrain_epochs s" and le: "Suc t + n \<le> pretrain_epochs s" by simp_all
  have "pretrain_loop M (Suc n) (run_upto M s m0 t) = pretrain_loop M n (run_upto M s m0 (Suc t))"
    unfolding run_upto_Suc
    by (simp add: run_upto_def Let_def state_at_Suc_pre [OF t] cl_at_def t)
  with Suc.IH [OF le] show ?case by simp
qed

lemma main_done: "\<not> e < max_epochs s \<Longrightarrow> main_loop M s e st = st"
  by (cases st) (simp add: main_loop.simps)

lemma main_nan:
  assumes "e < max_epochs s" "loss_nan M s m0 e"
  shows "main_loop M s e (run_upto M s m0 (pretrain_epochs s + e)) = run_upto M s m0 (pretrain_epochs s + e)"
  using assms unfolding run_upto_def loss_nan_def by (simp add: main_loop.simps)

lemma main_body:
  assumes "e < max_epochs s" "\<not> loss_nan M s m0 e"
  shows "main_loop M s e (run_upto M s m0 (pretrain_epochs s + e)) =
     (if early M s m0 e then run_upto M s m0 (pretrain_epochs s + Suc e)
      else main_loop M s (Suc e) (run_upto M s m0 (pretrain_epochs s + Suc e)))"
proof -
  have st: "state_at M s m0 (Suc (pretrain_epochs s + e))
      = main_step M (state_at M s m0 (pretrain_epochs s + e))"
    by (rule state_at_Suc_main) simp
  have r: "run_upto M s m0 (pretrain_epochs s + Suc e) =
     (main_step M (state_at M s m0 (pretrain_epochs s + e)),
      map (\<lambda>j. dist_loss M (state_at M s m0 j)) [0..<pretrain_epochs s + e]
        @ [dist_loss M (state_at M s m0 (pretrain_epochs s + e))],
      map (cl_at M s m0) [0..<pretrain_epochs s + e]
        @ [py_scale (10 powr constraint_level s) (comp_loss M (state_at M s m0 (pretrain_epochs s + e)))],
      map (\<lambda>j. snapshot M (state_at M s m0 (Suc j))) [0..<pretrain_epochs s + e]
        @ [snapshot M (main_step M (state_at M s m0 (pretrain_epochs s + e)))])"
    using run_upto_Suc [of M s m0 "pretrain_epochs s + e"] st by (simp add: cl_at_def)
  have ea: "early M s m0 e = early_stop s e
     (map (\<lambda>j. dist_loss M (state_at M s m0 j)) [0..<pretrain_epochs s + e]
        @ [dist_loss M (state_at M s m0 (pretrain_epochs s + e))])"
    by (simp add: early_def)
  show ?thesis
    unfolding r ea using assms
    by (subst run_upto_def, subst main_loop.simps) (simp add: loss_nan_def Let_def)
qed

lemma main_loop_run:
  assumes "e \<le> max_epochs s"
  shows "\<exists>n. e \<le> n \<and> n \<le> max_epochs s \<and>
     main_loop M s e (run_upto M s m0 (pretrain_epochs s + e)) = run_upto M s m0 (pretrain_epochs s + n) \<and>
     (\<forall>j. e \<le> j \<and> j < n \<longrightarrow> \<not> loss_nan M s m0 j) \<and>
     (\<forall>j. e \<le> j \<and> Suc j < n \<longrightarrow> \<not> early M s m0 j) \<and>
     (n < max_epochs s \<longrightarrow> loss_nan M s m0 n \<or> (e < n \<and> early M s m0 (n - 1)))"
  using assms
proof (induction "max_epochs s - e" arbitrary: e)
  case 0
  then have e: "e = max_epochs s" by simp
  then have "main_loop M s e (run_upto M s m0 (pretrain_epochs s + e))
      = run_upto M s m0 (pretrain_epochs s + e)"
    by (simp add: main_done)
  then show ?case using e by (intro exI [of _ e]) auto
next
  case (Suc d)
  then have lt: "e < max_epochs s" by simp
  show ?case
  proof (cases "loss_nan M s m0 e")
    case True
    from main_nan [OF lt True] True show ?thesis
      using lt by (intro exI [of _ e]) auto
  next
    case False
    note body = main_body [OF lt False]
    show ?thesis
    proof (cases "early M s m0 e")
      case True
      have "\<forall>j. e \<le> j \<and> j < Suc e \<longrightarrow> \<not> loss_nan M s m0 j"
        using False by (auto simp: less_Suc_eq_le)
      with body True lt show ?thesis
        by (intro exI [of _ "Suc e"]) auto
    next
      case ne: False
      have d: "d = max_epochs s - Suc e" "Suc e \<le> max_epochs s" using Suc(2) lt by simp_all
      from Suc(1) [OF d] obtain n where n: "Suc e \<le> n" "n \<le> max_epochs s"
        "main_loop M s (Suc e) (run_upto M s m0 (pretrain_epochs s + Suc e))
           = run_upto M s m0 (pretrain_epochs s + n)"
        "\<forall>j. Suc e \<le> j \<and> j < n \<longrightarrow> \<not> loss_nan M s m0 j"
        "\<forall>j. Suc e \<le> j \<and> Suc j < n \<longrightarrow> \<not> early M s m0 j"
        "n < max_epochs s \<longrightarrow> loss_nan M s m0 n \<or> (Suc e < n \<and> early M s m0 (n - 1))"
        by blast
      have a: "\<forall>j. e \<le> j \<and> j < n \<longrightarrow> \<not> loss_nan M s m0 j"
        using n(4) False by (metis Suc_leI le_neq_implies_less)
      have b: "\<forall>j. e \<le> j \<and> Suc j < n \<longrightarrow> \<not> early M s m0 j"
        using n(5) ne by (metis Suc_leI le_neq_implies_less)
      have c: "n < max_epochs s \<longrightarrow> loss_nan M s m0 n \<or> (e < n \<and> early M s m0 (n - 1))"
        using n(6) by auto
      have m: "main_loop M s e (run_upto M s m0 (pretrain_epochs s + e))
           = run_upto M s m0 (pretrain_epochs s + n)"
        using body ne n(3) by simp
      from n(1,2) m a b c show ?thesis
        by (intro exI [of _ n]) auto
    qed
  qed
qed

lemma pretrain_all:
  "pretrain_loop M (pretrain_epochs s) (m0, [], [], []) = run_upto M s m0 (pretrain_epochs s)"
  using pretrain_run [of 0 "pretrain_epochs s" s M m0] by (simp add: run_upto_0)

lemma try_fit_run:
  "\<exists>n \<le> max_epochs s.
     try_fit M s m0 =
       \<lparr>distribution_loss_series =
           map (\<lambda>j. dist_loss M (state_at M s m0 j)) [0..<pretrain_epochs s + n],
        component_loss_series = map (cl_at M s m0) [0..<pretrain_epochs s + n],
        final_params = snapshot M (state_at M s m0 (pretrain_epochs s + n)),
        history = map (\<lambda>j. snapshot M (state_at M s m0 (Suc j))) [0..<pretrain_epochs s + n]\<rparr> \<and>
     (\<forall>j < n. \<not> loss_nan M s m0 j) \<and>
     (\<forall>j. Suc j < n \<longrightarrow> \<not> early M s m0 j) \<and>
     (n < max_epochs s \<longrightarrow> loss_nan M s m0 n \<or> (0 < n \<and> early M s m0 (n - 1)))"
proof -
  have "0 \<le> max_epochs s" by simp
  from main_loop_run [OF this, of M m0] obtain n where n: "n \<le> max_epochs s"
    "main_loop M s 0 (run_upto M s m0 (pretrain_epochs s + 0))
       = run_upto M s m0 (pretrain_epochs s + n)"
    "\<forall>j. 0 \<le> j \<and> j < n \<longrightarrow> \<not> loss_nan M s m0 j"
    "\<forall>j. 0 \<le> j \<and> Suc j < n \<longrightarrow> \<not> early M s m0 j"
    "n < max_epochs s \<longrightarrow> loss_nan M s m0 n \<or> (0 < n \<and> early M s m0 (n - 1))"
    by blast
  have "try_fit M s m0 =
       \<lparr>distribution_loss_series =
           map (\<lambda>j. dist_loss M (state_at M s m0 j)) [0..<pretrain_epochs s + n],
        component_loss_series = map (cl_at M s m0) [0..<pretrain_epochs s + n],
        final_params = snapshot M (state_at M s m0 (pretrain_epochs s + n)),
        history = map (\<lambda>j. snapshot M (state_at M s m0 (Suc j))) [0..<pretrain_epochs s + n]\<rparr>"
    using n(2) by (simp add: try_fit_def pretrain_all) (simp add: run_upto_def)
  with n(1,3,4,5) show ?thesis by (intro exI [of _ n]) simp
qed

text \<open>
  Claim C7. At the return of \<open>try_fit\<close> the history, the distribution-loss series and the
  component-loss series have the same length \<open>pretrain_epochs + n\<close>, where \<open>n\<close> main-phase
  iterations were executed (the model has taken \<open>pretrain_epochs + n\<close> optimizer steps);
  entry \<open>j\<close> of the history is the snapshot after step \<open>j + 1\<close>, entry \<open>j\<close> of each loss
  series is the loss of iteration \<open>j\<close>, the component loss of a pretrain iteration being 0.
\<close>

theorem try_fit_history_lengths:
  "\<exists>n \<le> max_epochs s.
     length (history (try_fit M s m0)) = pretrain_epochs s + n \<and>
     length (distribution_loss_series (try_fit M s m0)) = pretrain_epochs s + n \<and>
     length (component_loss_series (try_fit M s m0)) = pretrain_epochs s + n \<and>
     final_params (try_fit M s m0) = snapshot M (state_at M s m0 (pretrain_epochs s + n)) \<and>
     history (try_fit M s m0)
       = map (\<lambda>j. snapshot M (state_at M s m0 (Suc j))) [0..<pretrain_epochs s + n] \<and>
     distribution_loss_series (try_fit M s m0)
       = map (\<lambda>j. dist_loss M (state_at M s m0 j)) [0..<pretrain_epochs s + n] \<and>
     component_loss_series (try_fit M s m0)
       = map (\<lambda>j. if j < pretrain_epochs s then Fin 0
                   else py_scale (10 powr constraint_level s) (comp_loss M (state_at M s m0 j)))
           [0..<pretrain_epochs s + n]"
proof -
  from try_fit_run [of s M m0] obtain n where n: "n \<le> max_epochs s"
    "try_fit M s m0 =
       \<lparr>distribution_loss_series =
           map (\<lambda>j. dist_loss M (state_at M s m0 j)) [0..<pretrain_epochs s + n],
        component_loss_series = map (cl_at M s m0) [0..<pretrain_epochs s + n],
        final_params = snapshot M (state_at M s m0 (pretrain_epochs s + n)),
        history = map (\<lambda>j. snapshot M (state_at M s m0 (Suc j))) [0..<pretrain_epochs s + n]\<rparr>"
    by blast
  have cl: "cl_at M s m0 = (\<lambda>j. if j < pretrain_epochs s then Fin 0
                   else py_scale (10 powr constraint_level s) (comp_loss M (state_at M s m0 j)))"
    by (rule ext) (simp add: cl_at_def)
  show ?thesis
    using n(1) unfolding n(2) cl by (intro exI [of _ n]) simp
qed

lemma try_fit_nan_at:
  assumes "i < max_epochs s" "loss_nan M s m0 i"
    "\<forall>j < i. \<not> loss_nan M s m0 j \<and> \<not> early M s m0 j"
  shows "length (history (try_fit M s m0)) = pretrain_epochs s + i \<and>
         length (distribution_loss_series (try_fit M s m0)) = pretrain_epochs s + i \<and>
         length (component_loss_series (try_fit M s m0)) = pretrain_epochs s + i \<and>
         n_iterations (try_fit M s m0) = pretrain_epochs s + i \<and>
         final_params (try_fit M s m0) = snapshot M (state_at M s m0 (pretrain_epochs s + i)) \<and>
         (0 < pretrain_epochs s + i \<longrightarrow>
            final_params (try_fit M s m0) = last (history (try_fit M s m0)))"
proof -
  from try_fit_run [of s M m0] obtain n where n: "n \<le> max_epochs s"
    "try_fit M s m0 =
       \<lparr>distribution_loss_series =
           map (\<lambda>j. dist_loss M (state_at M s m0 j)) [0..<pretrain_epochs s + n],
        component_loss_series = map (cl_at M s m0) [0..<pretrain_epochs s + n],
        final_params = snapshot M (state_at M s m0 (pretrain_epochs s + n)),
        history = map (\<lambda>j. snapshot M (state_at M s m0 (Suc j))) [0..<pretrain_epochs s + n]\<rparr>"
    "\<forall>j < n. \<not> loss_nan M s m0 j"
    "\<forall>j. Suc j < n \<longrightarrow> \<not> early M s m0 j"
    "n < max_epochs s \<longrightarrow> loss_nan M s m0 n \<or> (0 < n \<and> early M s m0 (n - 1))"
    by blast
  have le: "n \<le> i" using n(3) assms(2) by (meson not_le)
  have "\<not> n < i"
  proof
    assume lt: "n < i"
    with assms(1) have "n < max_epochs s" by simp
    with n(5) have "loss_nan M s m0 n \<or> (0 < n \<and> early M s m0 (n - 1))" by simp
    moreover from lt assms(3) have "\<not> loss_nan M s m0 n" by simp
    moreover from lt assms(3) have "\<not> early M s m0 (n - 1)" by simp
    ultimately show False by simp
  qed
  with le have eq: "n = i" by simp
  have la: "0 < pretrain_epochs s + i \<Longrightarrow>
     last (map (\<lambda>j. snapshot M (state_at M s m0 (Suc j))) [0..<pretrain_epochs s + i])
       = snapshot M (state_at M s m0 (pretrain_epochs s + i))"
    by (cases "pretrain_epochs s + i") simp_all
  show ?thesis unfolding n(2) eq n_iterations_def using la by simp
qed

text \<open>
  Claim C8, as the code has it. When the total loss is NaN at main-phase iteration \<open>i\<close>
  (counted from 0, below the cap) and no earlier iteration stopped the loop, \<open>try_fit\<close>
  returns a result in which the history and both loss series have \<open>pretrain_epochs + i\<close>
  entries: nothing is recorded for the NaN iteration, the iterations of the pretrain
  phase are. The iteration count is that number, and the final parameters are those of
  the model after \<open>pretrain_epochs + i\<close> steps, the last snapshot of the history when
  there is one.
\<close>

theorem nan_stops_training:
  assumes "i < max_epochs s" "loss_nan M s m0 i"
    "\<forall>j < i. \<not> loss_nan M s m0 j \<and> \<not> early M s m0 j"
  shows "length (history (try_fit M s m0)) = pretrain_epochs s + i \<and>
         length (distribution_loss_series (try_fit M s m0)) = pretrain_epochs s + i \<and>
         length (component_loss_series (try_fit M s m0)) = pretrain_epochs s + i \<and>
         n_iterations (try_fit M s m0) = pretrain_epochs s + i \<and>
         final_params (try_fit M s m0) = snapshot M (state_at M s m0 (pretrain_epochs s + i)) \<and>
         (0 < pretrain_epochs s + i \<longrightarrow>
            final_params (try_fit M s m0) = last (history (try_fit M s m0)))"
  by (rule try_fit_nan_at [OF assms])

subsection \<open>The comparison windows\<close>




lemma py_slice_old_window_short:
  "length xs \<le> 80 \<Longrightarrow> py_slice xs (- 100) (- 80) = []"
  by (simp add: py_slice_def py_norm_def Let_def)

lemma early_short: "pretrain_epochs s + j < 80 \<Longrightarrow> \<not> early M s m0 j"
  by (simp add: early_def early_stop_def py_slice_old_window_short np_mean_def)


subsection \<open>The two concrete models\<close>

lemma funpow_Suc_add: "(Suc ^^ n) m = m + n"
  by (induction n) simp_all

lemma state_at_nan_udm: "state_at nan_udm s 0 t = t"
  by (simp add: state_at_def nan_udm_def funpow_Suc_add)

lemma state_at_constant_udm: "state_at constant_udm s 0 t = t"
  by (simp add: state_at_def constant_udm_def funpow_Suc_add)

lemma nan_udm_run:
  "(2::nat) < max_epochs short_setting \<and> loss_nan nan_udm short_setting 0 2 \<and>
   (\<forall>j < 2. \<not> loss_nan nan_udm short_setting 0 j \<and> \<not> early nan_udm short_setting 0 j)"
proof -
  have a: "(2::nat) < max_epochs short_setting" by (simp add: short_setting_def)
  have b: "loss_nan nan_udm short_setting 0 2"
    by (simp add: loss_nan_def state_at_nan_udm total_loss_def)
      (simp add: nan_udm_def short_setting_def)
  have c: "\<not> loss_nan nan_udm short_setting 0 j" if "j < 2" for j
    using that by (simp add: loss_nan_def state_at_nan_udm total_loss_def)
      (simp add: nan_udm_def short_setting_def)
  have d: "\<not> early nan_udm short_setting 0 j" if "j < 2" for j
    by (rule early_short) (use that in \<open>simp add: short_setting_def\<close>)
  from a b c d show ?thesis by blast
qed

theorem nan_stops_training_witness:
  "(2::nat) < max_epochs short_setting \<and> loss_nan nan_udm short_setting 0 2 \<and>
   length (history (try_fit nan_udm short_setting 0)) = 1 + 2 \<and>
   final_params (try_fit nan_udm short_setting 0) = last (history (try_fit nan_udm short_setting 0))"
proof -
  from nan_udm_run have h: "(2::nat) < max_epochs short_setting"
    "loss_nan nan_udm short_setting 0 2"
    "\<forall>j < 2. \<not> loss_nan nan_udm short_setting 0 j \<and> \<not> early nan_udm short_setting 0 j"
    by blast+
  from nan_stops_training [OF h] h(1,2) show ?thesis
    by (simp add: short_setting_def)
qed

text \<open>
  Claim C8 as stated fails when there is a pretrain phase: with one pretrain epoch and a
  total loss that is NaN at main-phase iteration 2, the history has 3 entries and the
  iteration count is 3, not 2.
\<close>

theorem nan_after_pretrain_history:
  "loss_nan nan_udm short_setting 0 2 \<and>
   length (history (try_fit nan_udm short_setting 0)) = 3 \<and>
   n_iterations (try_fit nan_udm short_setting 0) = 3"
proof -
  from nan_udm_run have h: "(2::nat) < max_epochs short_setting"
    "loss_nan nan_udm short_setting 0 2"
    "\<forall>j < 2. \<not> loss_nan nan_udm short_setting 0 j \<and> \<not> early nan_udm short_setting 0 j"
    by blast+
  from try_fit_nan_at [OF h] h(2) show ?thesis
    by (simp add: short_setting_def)
qed



end
